theory Spec2Isabelle
  imports Main
begin

section \<open>The live-session relay of server/index.js\<close>

text \<open>
  The relay keeps two process-wide variables, \<^verbatim>\<open>liveTeachers\<close> (a Map from teacher id
  to a Set of student sockets) and \<^verbatim>\<open>currentLiveTeacher\<close> (a teacher id or null), and two
  variables in the closure of every connection, \<^verbatim>\<open>currentTeacherId\<close> (a teacher id or
  null) and \<^verbatim>\<open>isStudent\<close>. Every handler runs to completion on one event, so the relay
  is a function from an event and a state to a state and the messages sent.

  Teacher ids are the strings the client supplies. A socket is identified by a number,
  allocated at connection time and never reused, which stands for the identity of the
  socket object. Calls of \<^verbatim>\<open>console.log\<close> are left out.
\<close>

type_synonym teacher_id = string
type_synonym conn = nat

text \<open>The payload of \<^verbatim>\<open>whiteboardUpdate\<close> (interface WhiteboardUpdate).\<close>

record whiteboard_update =
  teacherId :: teacher_id
  whiteboardData :: string

text \<open>The events the server sends (interface ServerToClientEvents).\<close>

datatype msg =
    TeacherOnline teacher_id
  | TeacherOffline teacher_id
  | LiveError string
  | WhiteboardUpdateMsg whiteboard_update

text \<open>One \<^verbatim>\<open>emit\<close>: the sockets it is delivered to, and the message.\<close>

type_synonym emission = "conn set \<times> msg"

text \<open>The two variables in the closure of a connection.\<close>

record local_state =
  currentTeacherId :: "teacher_id option"
  isStudent :: bool

text \<open>
  The state of the relay. \<open>rooms\<close> and \<open>conns\<close> are the part of the transport the
  handlers use: the members of every named room, and the sockets connected now, each with
  the variables of its closure. \<open>nextConn\<close> is the identity the next socket gets.
\<close>

record relay =
  liveTeachers :: "teacher_id \<rightharpoonup> conn set"
  currentLiveTeacher :: "teacher_id option"
  rooms :: "string \<Rightarrow> conn set"
  conns :: "conn \<rightharpoonup> local_state"
  nextConn :: conn

definition init :: relay where
  "init = \<lparr>liveTeachers = Map.empty, currentLiveTeacher = None, rooms = (\<lambda>r. {}),
           conns = Map.empty, nextConn = 0\<rparr>"

text \<open>
  \<^verbatim>\<open>if (currentLiveTeacher)\<close> and \<^verbatim>\<open>if (currentTeacherId)\<close> test a value that is null or
  a string: null and the empty string are false, every other string is true.
\<close>

fun truthy :: "teacher_id option \<Rightarrow> bool" where
  "truthy None = False"
| "truthy (Some t) = (t \<noteq> [])"

text \<open>The room name \<^verbatim>\<open>`teacher-${teacherId}`\<close>.\<close>

definition room :: "teacher_id \<Rightarrow> string" where
  "room t = ''teacher-'' @ t"

subsection \<open>The transport\<close>

text \<open>
  The transport is the socket.io library, which the handlers call and the repository does
  not contain. What the handlers use of it is modelled as follows.
  \<^item> \<^verbatim>\<open>socket.join(r)\<close> and \<^verbatim>\<open>socket.leave(r)\<close> add the socket to and remove it from the
    members of room \<open>r\<close>.
  \<^item> \<^verbatim>\<open>socket.emit\<close> delivers to the socket itself, \<^verbatim>\<open>io.emit\<close> to every connected socket,
    \<^verbatim>\<open>socket.broadcast.to(r).emit\<close> to every member of room \<open>r\<close> but the socket itself.
  \<^item> A new connection runs the body of \<^verbatim>\<open>io.on('connection', ...)\<close>: the closure starts
    with \<^verbatim>\<open>currentTeacherId = null\<close> and \<^verbatim>\<open>isStudent = false\<close>.
  \<^item> When a socket closes, the transport removes it from every room and from the connected
    sockets, and then runs the \<^verbatim>\<open>disconnect\<close> handler.
  \<^item> Handlers run only for connected sockets.
  \<^item> The room that every socket has under its own id is left out: the handlers only name
    rooms \<^verbatim>\<open>teacher-...\<close>.
\<close>

definition join :: "conn \<Rightarrow> string \<Rightarrow> relay \<Rightarrow> relay" where
  "join c r s = s\<lparr>rooms := (rooms s)(r := insert c (rooms s r))\<rparr>"

definition leave :: "conn \<Rightarrow> string \<Rightarrow> relay \<Rightarrow> relay" where
  "leave c r s = s\<lparr>rooms := (rooms s)(r := rooms s r - {c})\<rparr>"

text \<open>\<^verbatim>\<open>students.forEach(studentSocket => studentSocket.leave(r))\<close>\<close>

definition leave_all :: "conn set \<Rightarrow> string \<Rightarrow> relay \<Rightarrow> relay" where
  "leave_all students r s = s\<lparr>rooms := (rooms s)(r := rooms s r - students)\<rparr>"

definition set_local :: "conn \<Rightarrow> local_state \<Rightarrow> relay \<Rightarrow> relay" where
  "set_local c l s = s\<lparr>conns := (conns s)(c \<mapsto> l)\<rparr>"

text \<open>What the transport does to a closing socket before the handler runs.\<close>

definition close :: "conn \<Rightarrow> relay \<Rightarrow> relay" where
  "close c s = s\<lparr>rooms := (\<lambda>r. rooms s r - {c}), conns := (conns s)(c := None)\<rparr>"

definition connection :: "relay \<Rightarrow> relay \<times> emission list" where
  "connection s =
     (s\<lparr>conns := (conns s)(nextConn s \<mapsto> \<lparr>currentTeacherId = None, isStudent = False\<rparr>),
        nextConn := Suc (nextConn s)\<rparr>, [])"

subsection \<open>The handlers\<close>

definition checkTeacherStatus :: "conn \<Rightarrow> relay \<Rightarrow> relay \<times> emission list" where
  "checkTeacherStatus c s =
     (case conns s c of
        None \<Rightarrow> (s, [])
      | Some l \<Rightarrow>
          (case currentLiveTeacher s of
             None \<Rightarrow> (s, [])
           | Some t \<Rightarrow> if t \<noteq> [] then (s, [({c}, TeacherOnline t)]) else (s, [])))"

definition live_error_message :: string where
  "live_error_message = ''Another teacher is currently live. Please try again later.''"

definition startLive :: "conn \<Rightarrow> teacher_id \<Rightarrow> relay \<Rightarrow> relay \<times> emission list" where
  "startLive c t s =
     (case conns s c of
        None \<Rightarrow> (s, [])
      | Some l \<Rightarrow>
          if truthy (currentLiveTeacher s) then (s, [({c}, LiveError live_error_message)])
          else
            let s1 = s\<lparr>liveTeachers := (liveTeachers s)(t \<mapsto> {})\<rparr>;
                s2 = set_local c (l\<lparr>currentTeacherId := Some t\<rparr>) s1;
                s3 = s2\<lparr>currentLiveTeacher := Some t\<rparr>;
                s4 = join c (room t) s3
            in (s4, [(dom (conns s4), TeacherOnline t)]))"

definition stopLive :: "conn \<Rightarrow> teacher_id \<Rightarrow> relay \<Rightarrow> relay \<times> emission list" where
  "stopLive c t s =
     (case conns s c of
        None \<Rightarrow> (s, [])
      | Some l \<Rightarrow>
          let (s3, out) =
                (case liveTeachers s t of
                   None \<Rightarrow> (s, [])
                 | Some students \<Rightarrow>
                     let s1 = leave_all students (room t) s;
                         s2 = s1\<lparr>liveTeachers := (liveTeachers s1)(t := None)\<rparr>;
                         s3 = (if currentLiveTeacher s2 = Some t
                               then s2\<lparr>currentLiveTeacher := None\<rparr> else s2)
                     in (s3, [(dom (conns s3), TeacherOffline t)]))
          in if currentTeacherId l = Some t
             then (set_local c (l\<lparr>currentTeacherId := None\<rparr>) (leave c (room t) s3), out)
             else (s3, out))"

definition joinTeacherRoom :: "conn \<Rightarrow> teacher_id \<Rightarrow> relay \<Rightarrow> relay \<times> emission list" where
  "joinTeacherRoom c t s =
     (case conns s c of
        None \<Rightarrow> (s, [])
      | Some l \<Rightarrow>
          (case liveTeachers s t of
             None \<Rightarrow> (s, [])
           | Some students \<Rightarrow>
               let s1 = join c (room t) s;
                   s2 = s1\<lparr>liveTeachers := (liveTeachers s1)(t \<mapsto> insert c students)\<rparr>;
                   s3 = set_local c \<lparr>currentTeacherId = Some t, isStudent = True\<rparr> s2
               in (s3, [({c}, TeacherOnline t)])))"

definition leaveTeacherRoom :: "conn \<Rightarrow> teacher_id \<Rightarrow> relay \<Rightarrow> relay \<times> emission list" where
  "leaveTeacherRoom c t s =
     (case conns s c of
        None \<Rightarrow> (s, [])
      | Some l \<Rightarrow>
          let s1 = (case liveTeachers s t of
                      None \<Rightarrow> s
                    | Some students \<Rightarrow>
                        s\<lparr>liveTeachers := (liveTeachers s)(t \<mapsto> students - {c})\<rparr>);
              s2 = leave c (room t) s1
          in if currentTeacherId l = Some t
             then (set_local c (l\<lparr>currentTeacherId := None\<rparr>) s2, [])
             else (s2, []))"

definition whiteboardUpdate :: "conn \<Rightarrow> whiteboard_update \<Rightarrow> relay \<Rightarrow> relay \<times> emission list"
  where
  "whiteboardUpdate c data s =
     (case conns s c of
        None \<Rightarrow> (s, [])
      | Some l \<Rightarrow> (s, [(rooms s (room (teacherId data)) - {c}, WhiteboardUpdateMsg data)]))"

definition disconnect :: "conn \<Rightarrow> relay \<Rightarrow> relay \<times> emission list" where
  "disconnect c s =
     (case conns s c of
        None \<Rightarrow> (s, [])
      | Some l \<Rightarrow>
          let s0 = close c s in
          (case currentTeacherId l of
             None \<Rightarrow> (s0, [])
           | Some t \<Rightarrow>
               if t \<noteq> [] then
                 if isStudent l then
                   (case liveTeachers s0 t of
                      None \<Rightarrow> (s0, [])
                    | Some students \<Rightarrow>
                        (s0\<lparr>liveTeachers := (liveTeachers s0)(t \<mapsto> students - {c})\<rparr>, []))
                 else
                   (case liveTeachers s0 t of
                      None \<Rightarrow> (s0, [])
                    | Some students \<Rightarrow>
                        let s1 = leave_all students (room t) s0;
                            s2 = s1\<lparr>liveTeachers := (liveTeachers s1)(t := None)\<rparr>;
                            s3 = (if currentLiveTeacher s2 = Some t
                                  then s2\<lparr>currentLiveTeacher := None\<rparr> else s2)
                        in (s3, [(dom (conns s3), TeacherOffline t)]))
               else (s0, [])))"

subsection \<open>Events and runs\<close>

datatype event =
    Connection
  | CheckTeacherStatus conn
  | StartLive conn teacher_id
  | StopLive conn teacher_id
  | JoinTeacherRoom conn teacher_id
  | LeaveTeacherRoom conn teacher_id
  | WhiteboardUpdate conn whiteboard_update
  | Disconnect conn

fun step :: "event \<Rightarrow> relay \<Rightarrow> relay \<times> emission list" where
  "step Connection s = connection s"
| "step (CheckTeacherStatus c) s = checkTeacherStatus c s"
| "step (StartLive c t) s = startLive c t s"
| "step (StopLive c t) s = stopLive c t s"
| "step (JoinTeacherRoom c t) s = joinTeacherRoom c t s"
| "step (LeaveTeacherRoom c t) s = leaveTeacherRoom c t s"
| "step (WhiteboardUpdate c d) s = whiteboardUpdate c d s"
| "step (Disconnect c) s = disconnect c s"

text \<open>A run handles the events in order and collects what was sent.\<close>

fun run :: "event list \<Rightarrow> relay \<Rightarrow> relay \<times> emission list" where
  "run [] s = (s, [])"
| "run (e # es) s =
     (let (s1, out1) = step e s; (s2, out2) = run es s1 in (s2, out1 @ out2))"

definition after :: "event list \<Rightarrow> relay" where
  "after es = fst (run es init)"

subsection \<open>Some runs\<close>

text \<open>
  A class of one: sockets 0, 1 and 2 connect, socket 0 goes live as teacher \<open>t1\<close>, socket 1
  joins the room, socket 2 does nothing.
\<close>

definition class_of_one :: relay where
  "class_of_one =
     after [Connection, Connection, Connection, StartLive 0 ''t1'', JoinTeacherRoom 1 ''t1'']"

text \<open>
  After a first session: sockets 0, 1 and 2 connect, socket 0 goes live as teacher \<open>t1\<close>,
  socket 1 joins the room, and socket 0 stops the session. Socket 1 is still connected,
  and its closure still names \<open>t1\<close>.
\<close>

definition recess :: relay where
  "recess =
     after [Connection, Connection, Connection, StartLive 0 ''t1'', JoinTeacherRoom 1 ''t1'',
            StopLive 0 ''t1'']"

text \<open>
  A class of two, in a second session: from there, socket 0 goes live as teacher \<open>t1\<close>
  again, and sockets 1 and 2 join the room.
\<close>

definition second_class :: relay where
  "second_class =
     fst (run [JoinTeacherRoom 1 ''t1'', JoinTeacherRoom 2 ''t1''] (fst (startLive 0 ''t1'' recess)))"

text \<open>Sockets 0 and 1 connect and socket 0 goes live as teacher \<open>t1\<close>.\<close>

definition teacher_alone :: relay where
  "teacher_alone = after [Connection, Connection, StartLive 0 ''t1'']"

text \<open>Sockets 0 and 1 connect and socket 0 goes live with the empty string as teacher id.\<close>

definition empty_id_live :: relay where
  "empty_id_live = after [Connection, Connection, StartLive 0 '''']"


text \<open>The states the relay can be in: the initial one, and every state an event leads to.\<close>

inductive reachable :: "relay \<Rightarrow> bool" where
  reachable_init: "reachable init"
| reachable_step: "reachable s \<Longrightarrow> reachable (fst (step e s))"

subsection \<open>A class in session\<close>

text \<open>
  The states and events of a class that follows the protocol, used to relate the room of
  a teacher to the stored set of students. In a state that is idle for teacher \<open>t\<close> and
  socket \<open>c\<close> no teacher has an entry and no socket but \<open>c\<close> is in the room of \<open>t\<close>;
  students of an earlier session of \<open>t\<close> may still be connected. An event keeps the class
  of teacher \<open>t\<close> on socket \<open>c\<close> unless it is a \<^verbatim>\<open>stopLive(t)\<close>, the disconnect of \<open>c\<close>, or
  a \<^verbatim>\<open>joinTeacherRoom(t)\<close> of \<open>c\<close> itself.
\<close>

definition idle :: "conn \<Rightarrow> teacher_id \<Rightarrow> relay \<Rightarrow> bool" where
  "idle c t s \<longleftrightarrow>
     liveTeachers s = Map.empty \<and> currentLiveTeacher s = None \<and> rooms s (room t) \<subseteq> {c}"

fun keeps_class :: "conn \<Rightarrow> teacher_id \<Rightarrow> event \<Rightarrow> bool" where
  "keeps_class c t (StopLive c' x) = (x \<noteq> t)"
| "keeps_class c t (Disconnect c') = (c' \<noteq> c)"
| "keeps_class c t (JoinTeacherRoom c' x) = (c' \<noteq> c \<or> x \<noteq> t)"
| "keeps_class c t e = True"

text \<open>
  The invariant of such a class: \<open>t\<close> is the one live teacher, the members of its room
  other than \<open>c\<close> are the stored students, every student's closure names \<open>t\<close> with
  \<^verbatim>\<open>isStudent\<close> set, and no other socket than \<open>c\<close> names \<open>t\<close> without \<^verbatim>\<open>isStudent\<close>.
\<close>

definition class_inv :: "conn \<Rightarrow> teacher_id \<Rightarrow> relay \<Rightarrow> bool" where
  "class_inv c t s \<longleftrightarrow>
     t \<noteq> [] \<and> conns s c \<noteq> None \<and> currentLiveTeacher s = Some t \<and> dom (liveTeachers s) = {t}
     \<and> (\<forall>c'\<in>dom (conns s). c' < nextConn s)
     \<and> (\<exists>students. liveTeachers s t = Some students \<and> rooms s (room t) - {c} = students
           \<and> (\<forall>b\<in>students. \<exists>l. conns s b = Some l \<and> currentTeacherId l = Some t \<and> isStudent l))
     \<and> (\<forall>c' l. c' \<noteq> c \<and> conns s c' = Some l \<and> currentTeacherId l = Some t \<longrightarrow> isStudent l)"

subsection \<open>Stored students and rooms\<close>

text \<open>
  What every reachable state satisfies: a connected socket in a stored set of students has
  \<^verbatim>\<open>isStudent\<close> set; a connected socket whose closure names a teacher without \<^verbatim>\<open>isStudent\<close>
  is in the room of that teacher; and the identities of the connected sockets and of the
  stored students have all been allocated.
\<close>

definition tidy :: "relay \<Rightarrow> bool" where
  "tidy s \<longleftrightarrow>
     (\<forall>t students b l. liveTeachers s t = Some students \<and> b \<in> students \<and> conns s b = Some l
         \<longrightarrow> isStudent l)
     \<and> (\<forall>c l t. conns s c = Some l \<and> currentTeacherId l = Some t \<and> \<not> isStudent l
         \<longrightarrow> c \<in> rooms s (room t))
     \<and> (\<forall>c l. conns s c = Some l \<longrightarrow> c < nextConn s)
     \<and> (\<forall>t students b. liveTeachers s t = Some students \<and> b \<in> students \<longrightarrow> b < nextConn s)"

subsection \<open>One live teacher\<close>

text \<open>
  The states in which at most one teacher is live: \<^verbatim>\<open>liveTeachers\<close> is empty when
  \<^verbatim>\<open>currentLiveTeacher\<close> is null, and holds the one entry of the teacher that
  \<^verbatim>\<open>currentLiveTeacher\<close> names, a non-empty string, otherwise. An event is named when it is
  not a \<^verbatim>\<open>startLive\<close> with the empty string.
\<close>

definition exclusive :: "relay \<Rightarrow> bool" where
  "exclusive s \<longleftrightarrow>
     (case currentLiveTeacher s of
        None \<Rightarrow> liveTeachers s = Map.empty
      | Some t \<Rightarrow> t \<noteq> [] \<and> (\<exists>students. liveTeachers s = [t \<mapsto> students]))"

fun named :: "event \<Rightarrow> bool" where
  "named (StartLive c t) = (t \<noteq> [])"
| "named e = True"

section \<open>Properties\<close>

lemmas relay_defs =
  connection_def checkTeacherStatus_def startLive_def stopLive_def joinTeacherRoom_def
  leaveTeacherRoom_def whiteboardUpdate_def disconnect_def join_def leave_def leave_all_def
  set_local_def close_def room_def init_def after_def live_error_message_def Let_def

lemma reachable_run: "reachable s \<Longrightarrow> reachable (fst (run es s))"
  by (induction es arbitrary: s) (auto simp: split_beta Let_def intro: reachable_step)

lemma reachable_after: "reachable (after es)"
  unfolding after_def by (simp add: reachable_run reachable_init)

subsection \<open>Invariants\<close>

lemma step_conns_bound:
  assumes "\<forall>c\<in>dom (conns s). c < nextConn s"
  shows "\<forall>c\<in>dom (conns (fst (step e s))). c < nextConn (fst (step e s))"
proof (cases e)
  case Connection
  with assms show ?thesis by (auto simp: connection_def less_Suc_eq)
next
  case (CheckTeacherStatus c)
  with assms show ?thesis by (auto simp: checkTeacherStatus_def split: option.splits)
next
  case (StartLive c t)
  with assms show ?thesis
    by (auto simp: startLive_def Let_def set_local_def join_def split: option.splits if_splits)
next
  case (StopLive c t)
  with assms show ?thesis
    by (auto simp: stopLive_def Let_def set_local_def leave_def leave_all_def
             split: option.splits if_splits)
next
  case (JoinTeacherRoom c t)
  with assms show ?thesis
    by (auto simp: joinTeacherRoom_def Let_def set_local_def join_def
             split: option.splits if_splits)
next
  case (LeaveTeacherRoom c t)
  with assms show ?thesis
    by (auto simp: leaveTeacherRoom_def Let_def set_local_def leave_def
             split: option.splits if_splits)
next
  case (WhiteboardUpdate c d)
  with assms show ?thesis by (auto simp: whiteboardUpdate_def split: option.splits)
next
  case (Disconnect c)
  with assms show ?thesis
    by (auto simp: disconnect_def Let_def close_def leave_all_def
             split: option.splits if_splits)
qed

lemma reachable_conns_bound: "reachable s \<Longrightarrow> \<forall>c\<in>dom (conns s). c < nextConn s"
proof (induction rule: reachable.induct)
  case reachable_init
  show ?case by (simp add: init_def)
next
  case (reachable_step s e)
  from reachable_step.IH show ?case by (rule step_conns_bound)
qed

lemma room_inject [simp]: "room t = room x \<longleftrightarrow> t = x"
  by (simp add: room_def)

lemma tidy_step:
  assumes "tidy s"
  shows "tidy (fst (step e s))"
proof -
  from assms have A: "\<And>t students b l. liveTeachers s t = Some students \<Longrightarrow> b \<in> students
                        \<Longrightarrow> conns s b = Some l \<Longrightarrow> isStudent l"
    and B: "\<And>c l t. conns s c = Some l \<Longrightarrow> currentTeacherId l = Some t \<Longrightarrow> \<not> isStudent l
                        \<Longrightarrow> c \<in> rooms s (room t)"
    and C: "\<And>c l. conns s c = Some l \<Longrightarrow> c < nextConn s"
    and D: "\<And>t students b. liveTeachers s t = Some students \<Longrightarrow> b \<in> students \<Longrightarrow> b < nextConn s"
    unfolding tidy_def by blast+
  show ?thesis
  proof (cases e)
    case Connection
    show ?thesis
      unfolding tidy_def Connection
      by (auto simp: connection_def less_Suc_eq dest: A B C D split: if_splits)
  next
    case (CheckTeacherStatus c)
    with assms show ?thesis by (simp add: checkTeacherStatus_def split: option.splits)
  next
    case (StartLive c t)
    show ?thesis
      unfolding tidy_def StartLive
      by (auto simp: startLive_def Let_def set_local_def join_def dest: A B C D
               split: option.splits if_splits)
  next
    case (StopLive c t)
    show ?thesis
      unfolding tidy_def StopLive
      by (auto simp: stopLive_def Let_def set_local_def leave_def leave_all_def dest: A B C D
               split: option.splits if_splits)
  next
    case (JoinTeacherRoom c t)
    show ?thesis
      unfolding tidy_def JoinTeacherRoom
      by (auto simp: joinTeacherRoom_def Let_def set_local_def join_def dest: A B C D
               split: option.splits if_splits)
  next
    case (LeaveTeacherRoom c t)
    show ?thesis
      unfolding tidy_def LeaveTeacherRoom
      by (auto simp: leaveTeacherRoom_def Let_def set_local_def leave_def dest: A B C D
               split: option.splits if_splits)
  next
    case (WhiteboardUpdate c d)
    with assms show ?thesis by (simp add: whiteboardUpdate_def split: option.splits)
  next
    case (Disconnect c)
    show ?thesis
      unfolding tidy_def Disconnect
      by (auto simp: disconnect_def Let_def close_def leave_all_def dest: A B C D
               split: option.splits if_splits)
  qed
qed

lemma reachable_tidy: "reachable s \<Longrightarrow> tidy s"
proof (induction rule: reachable.induct)
  case reachable_init
  show ?case by (simp add: tidy_def init_def)
next
  case (reachable_step s e)
  then show ?case by (simp add: tidy_step)
qed

lemma class_inv_startLive:
  assumes "idle c t s" and "t \<noteq> []" and "conns s c = Some l"
    and "\<forall>c'\<in>dom (conns s). c' < nextConn s"
    and "\<forall>c' l. c' \<noteq> c \<and> conns s c' = Some l \<and> currentTeacherId l = Some t \<longrightarrow> isStudent l"
  shows "class_inv c t (fst (startLive c t s))"
  using assms
  by (auto simp: class_inv_def idle_def startLive_def Let_def set_local_def join_def)

lemma class_inv_step:
  assumes "class_inv c t s" and "keeps_class c t e"
  shows "class_inv c t (fst (step e s))"
proof -
  from assms(1) obtain lc students where
    t: "t \<noteq> []" and c: "conns s c = Some lc" and cur: "currentLiveTeacher s = Some t"
    and dm: "dom (liveTeachers s) = {t}"
    and bound: "\<forall>c'\<in>dom (conns s). c' < nextConn s"
    and lt: "liveTeachers s t = Some students"
    and scope: "rooms s (room t) - {c} = students"
    and studs: "\<forall>b\<in>students. \<exists>l. conns s b = Some l \<and> currentTeacherId l = Some t \<and> isStudent l"
    and others: "\<forall>c' l. c' \<noteq> c \<and> conns s c' = Some l \<and> currentTeacherId l = Some t \<longrightarrow> isStudent l"
    unfolding class_inv_def by blast
  have nosess: "liveTeachers s x = None" if "x \<noteq> t" for x
    using dm that by (metis domIff singletonD)
  from bound have fresh: "conns s (nextConn s) = None"
    by (metis domIff less_irrefl)
  show ?thesis
  proof (cases e)
    case Connection
    from studs fresh have "nextConn s \<notin> students"
      by auto
    with t c cur dm bound lt scope studs others fresh Connection show ?thesis
      unfolding class_inv_def
      by (auto simp: connection_def less_Suc_eq)
  next
    case (CheckTeacherStatus c')
    with assms show ?thesis by (auto simp: class_inv_def checkTeacherStatus_def split: option.splits)
  next
    case (StartLive c' x)
    with cur t have "fst (step e s) = s"
      by (auto simp: startLive_def split: option.splits)
    with assms show ?thesis by simp
  next
    case (StopLive c' x)
    with assms(2) have x: "x \<noteq> t" by simp
    show ?thesis
    proof (cases "conns s c'")
      case None
      with StopLive assms show ?thesis by (simp add: stopLive_def)
    next
      case (Some l')
      show ?thesis
      proof (cases "currentTeacherId l' = Some x")
        case False
        with Some nosess [OF x] StopLive have "fst (step e s) = s"
          by (simp add: stopLive_def)
        with assms show ?thesis by simp
      next
        case True
        with Some nosess [OF x] StopLive have
          "fst (step e s) = s\<lparr>rooms := (rooms s)(room x := rooms s (room x) - {c'}),
                              conns := (conns s)(c' \<mapsto> l'\<lparr>currentTeacherId := None\<rparr>)\<rparr>"
          by (simp add: stopLive_def set_local_def leave_def)
        moreover from True x studs Some have "c' \<notin> students"
          by auto
        ultimately show ?thesis
          using t c cur dm bound lt scope studs others x Some
          unfolding class_inv_def
          by auto
      qed
    qed
  next
    case (JoinTeacherRoom c' x)
    show ?thesis
    proof (cases "conns s c'")
      case None
      with JoinTeacherRoom assms show ?thesis by (simp add: joinTeacherRoom_def)
    next
      case (Some l')
      show ?thesis
      proof (cases "x = t")
        case False
        with Some nosess JoinTeacherRoom have "fst (step e s) = s"
          by (simp add: joinTeacherRoom_def)
        with assms show ?thesis by simp
      next
        case True
        with JoinTeacherRoom assms(2) have ne: "c' \<noteq> c" by simp
        from True Some lt JoinTeacherRoom have
          "fst (step e s) = s\<lparr>rooms := (rooms s)(room t := insert c' (rooms s (room t))),
                              liveTeachers := (liveTeachers s)(t \<mapsto> insert c' students),
                              conns := (conns s)(c' \<mapsto> \<lparr>currentTeacherId = Some t, isStudent = True\<rparr>)\<rparr>"
          by (simp add: joinTeacherRoom_def set_local_def join_def)
        then show ?thesis
          using t c cur dm bound lt scope studs others ne Some
          unfolding class_inv_def
          by auto
      qed
    qed
  next
    case (LeaveTeacherRoom c' x)
    show ?thesis
    proof (cases "conns s c'")
      case None
      with LeaveTeacherRoom assms show ?thesis by (simp add: leaveTeacherRoom_def)
    next
      case (Some l')
      show ?thesis
      proof (cases "x = t")
        case False
        with Some nosess LeaveTeacherRoom have
          st: "fst (step e s) = (if currentTeacherId l' = Some x
                 then s\<lparr>rooms := (rooms s)(room x := rooms s (room x) - {c'}),
                        conns := (conns s)(c' \<mapsto> l'\<lparr>currentTeacherId := None\<rparr>)\<rparr>
                 else s\<lparr>rooms := (rooms s)(room x := rooms s (room x) - {c'})\<rparr>)"
          by (simp add: leaveTeacherRoom_def set_local_def leave_def)
        have "c' \<notin> students" if "currentTeacherId l' = Some x"
          using that False studs Some by auto
        with st show ?thesis
          using t c cur dm bound lt scope studs others False Some
          unfolding class_inv_def
          by auto
      next
        case True
        with Some lt LeaveTeacherRoom have
          st: "fst (step e s) = (if currentTeacherId l' = Some t
                 then s\<lparr>liveTeachers := (liveTeachers s)(t \<mapsto> students - {c'}),
                        rooms := (rooms s)(room t := rooms s (room t) - {c'}),
                        conns := (conns s)(c' \<mapsto> l'\<lparr>currentTeacherId := None\<rparr>)\<rparr>
                 else s\<lparr>liveTeachers := (liveTeachers s)(t \<mapsto> students - {c'}),
                        rooms := (rooms s)(room t := rooms s (room t) - {c'})\<rparr>)"
          by (simp add: leaveTeacherRoom_def set_local_def leave_def)
        then show ?thesis
          using t c cur dm bound lt scope studs others Some
          unfolding class_inv_def
          by auto
      qed
    qed
  next
    case (WhiteboardUpdate c' d)
    with assms show ?thesis by (auto simp: class_inv_def whiteboardUpdate_def split: option.splits)
  next
    case (Disconnect c')
    with assms(2) have ne: "c' \<noteq> c" by simp
    show ?thesis
    proof (cases "conns s c'")
      case None
      with Disconnect assms show ?thesis by (simp add: disconnect_def)
    next
      case (Some l')
      have teardown: "\<not> (currentTeacherId l' = Some t \<and> \<not> isStudent l')"
        using others ne Some by blast
      have "fst (step e s) =
              (if currentTeacherId l' = Some t
               then s\<lparr>rooms := (\<lambda>r. rooms s r - {c'}), conns := (conns s)(c' := None),
                      liveTeachers := (liveTeachers s)(t \<mapsto> students - {c'})\<rparr>
               else s\<lparr>rooms := (\<lambda>r. rooms s r - {c'}), conns := (conns s)(c' := None)\<rparr>)"
        using Disconnect Some teardown t lt nosess
        by (auto simp: disconnect_def Let_def close_def split: option.splits)
      moreover have "c' \<notin> students" if "currentTeacherId l' \<noteq> Some t"
        using that studs Some by auto
      ultimately show ?thesis
        using t c cur dm bound lt scope studs others ne Some
        unfolding class_inv_def
        by auto
    qed
  qed
qed

lemma class_inv_run:
  assumes "class_inv c t s" and "\<forall>e\<in>set es. keeps_class c t e"
  shows "class_inv c t (fst (run es s))"
  using assms
proof (induction es arbitrary: s)
  case Nil
  then show ?case by simp
next
  case (Cons e es)
  from Cons.prems have "class_inv c t (fst (step e s))"
    by (simp add: class_inv_step)
  with Cons show ?case
    by (simp add: split_beta Let_def)
qed

text \<open>
  When teacher \<open>t\<close> goes live on socket \<open>c\<close> in a state idle for them and only events that keep
  the class follow, the members of the room of \<open>t\<close> other than \<open>c\<close> are the stored
  students.
\<close>

lemma class_scope:
  assumes "reachable s0" and "idle c t s0" and "t \<noteq> []" and "conns s0 c \<noteq> None"
    and "\<forall>e\<in>set es. keeps_class c t e"
  shows "class_inv c t (fst (run es (fst (startLive c t s0))))"
proof -
  from assms(4) obtain l where l: "conns s0 c = Some l"
    by blast
  from assms(1) have "tidy s0"
    by (rule reachable_tidy)
  then have "c' \<in> rooms s0 (room t)"
    if "conns s0 c' = Some l'" and "currentTeacherId l' = Some t" and "\<not> isStudent l'"
    for c' l'
    using that unfolding tidy_def by blast
  with assms(2) have "\<forall>c' l. c' \<noteq> c \<and> conns s0 c' = Some l \<and> currentTeacherId l = Some t
                         \<longrightarrow> isStudent l"
    unfolding idle_def by blast
  with assms(1-3) l have "class_inv c t (fst (startLive c t s0))"
    by (simp add: class_inv_startLive reachable_conns_bound)
  then show ?thesis
    using assms(5) by (rule class_inv_run)
qed

subsection \<open>The handlers, one by one\<close>

text \<open>
  C4. A \<^verbatim>\<open>startLive(t)\<close> on a connected socket \<open>c\<close> while \<^verbatim>\<open>currentLiveTeacher\<close> is null
  stores a new, empty set of students for \<open>t\<close>, sets \<^verbatim>\<open>currentLiveTeacher\<close> to \<open>t\<close>, sets
  the \<^verbatim>\<open>currentTeacherId\<close> of \<open>c\<close> to \<open>t\<close>, puts \<open>c\<close> into the room of \<open>t\<close> and sends
  \<^verbatim>\<open>teacherOnline\<close> naming \<open>t\<close> once, to every connected socket, \<open>c\<close> among them. Nothing
  else changes.
\<close>

theorem startLive_accepts:
  assumes "conns s c = Some l" and "currentLiveTeacher s = None"
  shows "startLive c t s =
           (s\<lparr>liveTeachers := (liveTeachers s)(t \<mapsto> {}),
              currentLiveTeacher := Some t,
              rooms := (rooms s)(room t := insert c (rooms s (room t))),
              conns := (conns s)(c \<mapsto> l\<lparr>currentTeacherId := Some t\<rparr>)\<rparr>,
            [(dom (conns s), TeacherOnline t)])
         \<and> c \<in> dom (conns s)"
  using assms
  by (auto simp: startLive_def Let_def set_local_def join_def)

theorem startLive_accepts_witness:
  "conns (after [Connection, Connection]) 1
     = Some \<lparr>currentTeacherId = None, isStudent = False\<rparr>
   \<and> currentLiveTeacher (after [Connection, Connection]) = None
   \<and> snd (startLive 1 ''t1'' (after [Connection, Connection]))
       = [({0, 1}, TeacherOnline ''t1'')]
   \<and> liveTeachers (fst (startLive 1 ''t1'' (after [Connection, Connection]))) ''t1'' = Some {}
   \<and> currentLiveTeacher (fst (startLive 1 ''t1'' (after [Connection, Connection])))
       = Some ''t1''"
proof -
  have h1: "conns (after [Connection, Connection]) 1
              = Some \<lparr>currentTeacherId = None, isStudent = False\<rparr>"
    by (simp add: relay_defs)
  have h2: "currentLiveTeacher (after [Connection, Connection]) = None"
    by (simp add: relay_defs)
  have d: "dom (conns (after [Connection, Connection])) = {0, 1}"
    by (auto simp: relay_defs)
  from startLive_accepts [OF h1 h2, of "''t1''"] h1 h2 d show ?thesis by simp
qed

text \<open>
  C5. A \<^verbatim>\<open>joinTeacherRoom(t)\<close> while \<^verbatim>\<open>liveTeachers\<close> has no entry for \<open>t\<close> does nothing:
  nothing is sent, and the state (rooms, both global variables, every closure) stays as
  it is.
\<close>

theorem joinTeacherRoom_not_live:
  assumes "liveTeachers s t = None"
  shows "joinTeacherRoom c t s = (s, [])"
  using assms by (simp add: joinTeacherRoom_def split: option.splits)

theorem joinTeacherRoom_not_live_witness:
  "liveTeachers (after [Connection]) ''t1'' = None
   \<and> joinTeacherRoom 0 ''t1'' (after [Connection]) = (after [Connection], [])"
proof -
  have h: "liveTeachers (after [Connection]) ''t1'' = None"
    by (simp add: relay_defs)
  from joinTeacherRoom_not_live [OF h, of 0] h show ?thesis by simp
qed

text \<open>
  C6. A \<^verbatim>\<open>stopLive(t)\<close> on a connected socket \<open>c\<close> while \<^verbatim>\<open>liveTeachers\<close> has no entry for
  \<open>t\<close> sends nothing and leaves both global variables and every other closure as they
  are; when the \<^verbatim>\<open>currentTeacherId\<close> of \<open>c\<close> is \<open>t\<close> it is set to null and \<open>c\<close> leaves the
  room of \<open>t\<close>, otherwise nothing changes at all. After any \<^verbatim>\<open>stopLive(t)\<close> there is no
  entry for \<open>t\<close>, so a second \<^verbatim>\<open>stopLive(t)\<close>, from any socket, sends nothing and leaves the
  global variables as the first left them.
\<close>

theorem stopLive_idempotent:
  assumes "conns s c = Some l"
  shows "(liveTeachers s t = None \<longrightarrow>
            stopLive c t s =
              (if currentTeacherId l = Some t
               then s\<lparr>rooms := (rooms s)(room t := rooms s (room t) - {c}),
                      conns := (conns s)(c \<mapsto> l\<lparr>currentTeacherId := None\<rparr>)\<rparr>
               else s, []))
         \<and> liveTeachers (fst (stopLive c t s)) t = None
         \<and> snd (stopLive c' t (fst (stopLive c t s))) = []
         \<and> liveTeachers (fst (stopLive c' t (fst (stopLive c t s))))
               = liveTeachers (fst (stopLive c t s))
         \<and> currentLiveTeacher (fst (stopLive c' t (fst (stopLive c t s))))
               = currentLiveTeacher (fst (stopLive c t s))"
proof -
  have first: "liveTeachers (fst (stopLive c t s)) t = None"
    using assms
    by (auto simp: stopLive_def Let_def set_local_def leave_def leave_all_def
             split: option.splits)
  have quiet: "liveTeachers s' t = None \<Longrightarrow>
                 snd (stopLive c' t s') = []
                 \<and> liveTeachers (fst (stopLive c' t s')) = liveTeachers s'
                 \<and> currentLiveTeacher (fst (stopLive c' t s')) = currentLiveTeacher s'" for s'
    by (auto simp: stopLive_def Let_def set_local_def leave_def split: option.splits)
  have noop: "liveTeachers s t = None \<longrightarrow>
            stopLive c t s =
              (if currentTeacherId l = Some t
               then s\<lparr>rooms := (rooms s)(room t := rooms s (room t) - {c}),
                      conns := (conns s)(c \<mapsto> l\<lparr>currentTeacherId := None\<rparr>)\<rparr>
               else s, [])"
    using assms by (auto simp: stopLive_def Let_def set_local_def leave_def)
  from first quiet [OF first] noop show ?thesis by simp
qed

theorem stopLive_idempotent_witness:
  "conns (after [Connection, StartLive 0 ''t1'']) 0
     = Some \<lparr>currentTeacherId = Some ''t1'', isStudent = False\<rparr>
   \<and> snd (stopLive 0 ''t1'' (after [Connection, StartLive 0 ''t1'']))
       = [({0}, TeacherOffline ''t1'')]
   \<and> snd (stopLive 0 ''t1'' (fst (stopLive 0 ''t1'' (after [Connection, StartLive 0 ''t1''])))) = []"
proof -
  have h: "conns (after [Connection, StartLive 0 ''t1'']) 0
             = Some \<lparr>currentTeacherId = Some ''t1'', isStudent = False\<rparr>"
    by (simp add: relay_defs)
  have "snd (stopLive 0 ''t1'' (after [Connection, StartLive 0 ''t1'']))
          = [({0}, TeacherOffline ''t1'')]"
    by (simp add: relay_defs)
  with stopLive_idempotent [OF h, of "''t1''" 0] h show ?thesis by simp
qed

text \<open>
  C9. \<^verbatim>\<open>stopLive(t)\<close> never looks at which socket calls it when it changes the global
  variables. For any two connected sockets, whatever their closures hold, the resulting
  \<^verbatim>\<open>liveTeachers\<close> and \<^verbatim>\<open>currentLiveTeacher\<close> and the messages sent are the same, and so
  are the rooms apart from the two callers' own membership. When \<^verbatim>\<open>liveTeachers\<close> has an
  entry for \<open>t\<close>, the call removes every student of the entry from the room of \<open>t\<close>,
  deletes the entry, sets \<^verbatim>\<open>currentLiveTeacher\<close> to null if it was \<open>t\<close>, and sends
  \<^verbatim>\<open>teacherOffline\<close> naming \<open>t\<close> to every connected socket.
\<close>

theorem stopLive_any_caller:
  assumes "conns s c1 = Some l1" and "conns s c2 = Some l2"
  shows "liveTeachers (fst (stopLive c1 t s)) = liveTeachers (fst (stopLive c2 t s))
         \<and> currentLiveTeacher (fst (stopLive c1 t s)) = currentLiveTeacher (fst (stopLive c2 t s))
         \<and> snd (stopLive c1 t s) = snd (stopLive c2 t s)
         \<and> (\<forall>r. rooms (fst (stopLive c1 t s)) r - {c1, c2}
                 = rooms (fst (stopLive c2 t s)) r - {c1, c2})
         \<and> (\<forall>students. liveTeachers s t = Some students \<longrightarrow>
               liveTeachers (fst (stopLive c1 t s)) = (liveTeachers s)(t := None)
               \<and> currentLiveTeacher (fst (stopLive c1 t s))
                   = (if currentLiveTeacher s = Some t then None else currentLiveTeacher s)
               \<and> (\<forall>b\<in>students. b \<notin> rooms (fst (stopLive c1 t s)) (room t))
               \<and> snd (stopLive c1 t s) = [(dom (conns s), TeacherOffline t)])"
proof -
  have global: "liveTeachers (fst (stopLive c t s))
                  = (case liveTeachers s t of None \<Rightarrow> liveTeachers s
                     | Some students \<Rightarrow> (liveTeachers s)(t := None))
                \<and> currentLiveTeacher (fst (stopLive c t s))
                  = (case liveTeachers s t of None \<Rightarrow> currentLiveTeacher s
                     | Some students \<Rightarrow>
                         if currentLiveTeacher s = Some t then None else currentLiveTeacher s)
                \<and> snd (stopLive c t s)
                  = (case liveTeachers s t of None \<Rightarrow> []
                     | Some students \<Rightarrow> [(dom (conns s), TeacherOffline t)])"
    if "conns s c = Some l" for c l
    using that
    by (auto simp: stopLive_def Let_def set_local_def leave_def leave_all_def
             split: option.splits)
  have scope: "rooms (fst (stopLive c t s)) r - {c}
                 = (case liveTeachers s t of None \<Rightarrow> rooms s r
                    | Some students \<Rightarrow> if r = room t then rooms s r - students else rooms s r)
                   - {c}"
    if "conns s c = Some l" for c l r
    using that
    by (auto simp: stopLive_def Let_def set_local_def leave_def leave_all_def
             split: option.splits)
  have evicted: "b \<notin> rooms (fst (stopLive c1 t s)) (room t)"
    if "liveTeachers s t = Some students" and "b \<in> students" for students b
    using that assms(1)
    by (auto simp: stopLive_def Let_def set_local_def leave_def leave_all_def)
  have "rooms (fst (stopLive c1 t s)) r - {c1, c2}
          = rooms (fst (stopLive c2 t s)) r - {c1, c2}" for r
  proof -
    have "rooms (fst (stopLive c1 t s)) r - {c1, c2}
            = (rooms (fst (stopLive c1 t s)) r - {c1}) - {c2}"
      by auto
    also have "\<dots> = (rooms (fst (stopLive c2 t s)) r - {c2}) - {c1}"
      unfolding scope [OF assms(1)] scope [OF assms(2)] by auto
    also have "\<dots> = rooms (fst (stopLive c2 t s)) r - {c1, c2}"
      by auto
    finally show ?thesis .
  qed
  with global [OF assms(1)] global [OF assms(2)] evicted show ?thesis
    by simp
qed

theorem stopLive_any_caller_witness:
  "conns class_of_one 2 = Some \<lparr>currentTeacherId = None, isStudent = False\<rparr>
   \<and> conns class_of_one 0 = Some \<lparr>currentTeacherId = Some ''t1'', isStudent = False\<rparr>
   \<and> liveTeachers class_of_one ''t1'' = Some {1}
   \<and> currentLiveTeacher class_of_one = Some ''t1''
   \<and> snd (stopLive 2 ''t1'' class_of_one) = snd (stopLive 0 ''t1'' class_of_one)
   \<and> snd (stopLive 2 ''t1'' class_of_one) = [({0, 1, 2}, TeacherOffline ''t1'')]
   \<and> liveTeachers (fst (stopLive 2 ''t1'' class_of_one)) ''t1'' = None
   \<and> currentLiveTeacher (fst (stopLive 2 ''t1'' class_of_one)) = None
   \<and> 1 \<notin> rooms (fst (stopLive 2 ''t1'' class_of_one)) (room ''t1'')"
proof -
  have h1: "conns class_of_one 2 = Some \<lparr>currentTeacherId = None, isStudent = False\<rparr>"
    by (simp add: class_of_one_def relay_defs)
  have h2: "conns class_of_one 0 = Some \<lparr>currentTeacherId = Some ''t1'', isStudent = False\<rparr>"
    by (simp add: class_of_one_def relay_defs)
  have h3: "liveTeachers class_of_one ''t1'' = Some {1}"
    by (simp add: class_of_one_def relay_defs)
  have h4: "currentLiveTeacher class_of_one = Some ''t1''"
    by (simp add: class_of_one_def relay_defs)
  have h5: "dom (conns class_of_one) = {0, 1, 2}"
    by (auto simp: class_of_one_def relay_defs)
  note w = stopLive_any_caller [OF h1 h2, of "''t1''"]
  from w have same: "snd (stopLive 2 ''t1'' class_of_one) = snd (stopLive 0 ''t1'' class_of_one)"
    by blast
  from w h3 have
    lt: "liveTeachers (fst (stopLive 2 ''t1'' class_of_one))
           = (liveTeachers class_of_one)(''t1'' := None)" and
    cur: "currentLiveTeacher (fst (stopLive 2 ''t1'' class_of_one))
           = (if currentLiveTeacher class_of_one = Some ''t1'' then None
              else currentLiveTeacher class_of_one)" and
    ev: "\<forall>b\<in>{1}. b \<notin> rooms (fst (stopLive 2 ''t1'' class_of_one)) (room ''t1'')" and
    out: "snd (stopLive 2 ''t1'' class_of_one) = [(dom (conns class_of_one), TeacherOffline ''t1'')]"
    by blast+
  from lt have "liveTeachers (fst (stopLive 2 ''t1'' class_of_one)) ''t1'' = None"
    by simp
  with h1 h2 h3 h4 h5 same cur ev out show ?thesis
    by simp
qed

text \<open>
  C3. A \<^verbatim>\<open>whiteboardUpdate(data)\<close> on a connected socket \<open>c\<close> sends one message, the data
  as received, to the members of the room of \<^verbatim>\<open>data.teacherId\<close> other than \<open>c\<close>, so never
  to \<open>c\<close>, and changes no state. When the teacher, with a non-empty id, went live on \<open>c\<close>
  in a state that is idle for the teacher and \<open>c\<close>, and only events that keep the class
  have followed, the recipients are the students stored for the teacher.
\<close>

theorem whiteboardUpdate_delivery:
  assumes "conns s c = Some l"
  shows "whiteboardUpdate c d s
           = (s, [(rooms s (room (teacherId d)) - {c}, WhiteboardUpdateMsg d)])
         \<and> (\<forall>s0 es. reachable s0 \<and> idle c (teacherId d) s0 \<and> teacherId d \<noteq> []
                \<and> conns s0 c \<noteq> None \<and> (\<forall>e\<in>set es. keeps_class c (teacherId d) e)
                \<and> s = fst (run es (fst (startLive c (teacherId d) s0)))
              \<longrightarrow> (\<exists>students. liveTeachers s (teacherId d) = Some students \<and> c \<notin> students
                     \<and> whiteboardUpdate c d s = (s, [(students, WhiteboardUpdateMsg d)])))"
proof -
  have exact: "whiteboardUpdate c d s
                 = (s, [(rooms s (room (teacherId d)) - {c}, WhiteboardUpdateMsg d)])"
    using assms by (simp add: whiteboardUpdate_def)
  have "\<exists>students. liveTeachers s (teacherId d) = Some students \<and> c \<notin> students
          \<and> whiteboardUpdate c d s = (s, [(students, WhiteboardUpdateMsg d)])"
    if "class_inv c (teacherId d) s"
  proof -
    from that obtain students where "liveTeachers s (teacherId d) = Some students"
      and "rooms s (room (teacherId d)) - {c} = students"
      unfolding class_inv_def by blast
    with exact show ?thesis
      by auto
  qed
  with exact class_scope show ?thesis
    by blast
qed

theorem whiteboardUpdate_delivery_witness:
  "conns second_class 0 = Some \<lparr>currentTeacherId = Some ''t1'', isStudent = False\<rparr>
   \<and> reachable recess
   \<and> idle 0 ''t1'' recess
   \<and> ''t1'' \<noteq> []
   \<and> conns recess 0 \<noteq> None
   \<and> keeps_class 0 ''t1'' (JoinTeacherRoom 1 ''t1'') \<and> keeps_class 0 ''t1'' (JoinTeacherRoom 2 ''t1'')
   \<and> second_class
       = fst (run [JoinTeacherRoom 1 ''t1'', JoinTeacherRoom 2 ''t1''] (fst (startLive 0 ''t1'' recess)))
   \<and> liveTeachers second_class ''t1'' = Some {1, 2}
   \<and> snd (whiteboardUpdate 0 \<lparr>teacherId = ''t1'', whiteboardData = ''[]''\<rparr> second_class)
       = [({1, 2}, WhiteboardUpdateMsg \<lparr>teacherId = ''t1'', whiteboardData = ''[]''\<rparr>)]"
proof -
  let ?es = "[JoinTeacherRoom 1 ''t1'', JoinTeacherRoom 2 ''t1'']"
  let ?d = "\<lparr>teacherId = ''t1'', whiteboardData = ''[]''\<rparr>"
  have h: "conns second_class 0 = Some \<lparr>currentTeacherId = Some ''t1'', isStudent = False\<rparr>"
    by (simp add: second_class_def recess_def relay_defs)
  have r: "reachable recess"
    unfolding recess_def by (rule reachable_after)
  have i: "idle 0 ''t1'' recess"
    by (auto simp: idle_def recess_def relay_defs split: if_splits)
  have c: "conns recess 0 \<noteq> None"
    by (simp add: recess_def relay_defs)
  have k: "\<forall>e\<in>set ?es. keeps_class 0 ''t1'' e"
    by simp
  have e: "second_class = fst (run ?es (fst (startLive 0 ''t1'' recess)))"
    by (rule second_class_def)
  have lt: "liveTeachers second_class ''t1'' = Some {1, 2}"
    by (auto simp: second_class_def recess_def relay_defs)
  have sel: "teacherId ?d = ''t1''"
    by simp
  note w = whiteboardUpdate_delivery [OF h, of ?d, unfolded sel]
  from w r i c k e
  obtain students where "liveTeachers second_class ''t1'' = Some students"
    and "whiteboardUpdate 0 ?d second_class = (second_class, [(students, WhiteboardUpdateMsg ?d)])"
    by blast
  with lt have "snd (whiteboardUpdate 0 ?d second_class) = [({1, 2}, WhiteboardUpdateMsg ?d)]"
    by simp
  moreover have "''t1'' \<noteq> []" and "keeps_class 0 ''t1'' (JoinTeacherRoom 1 ''t1'')"
    and "keeps_class 0 ''t1'' (JoinTeacherRoom 2 ''t1'')"
    by simp_all
  ultimately show ?thesis
    using h r i c e lt by blast
qed

text \<open>
  C3 as the specification states it fails in two reachable states. In the first, the
  socket that went live as teacher \<open>t\<close> has also joined the room of \<open>t\<close> as a student:
  it is the only student, and its update is delivered to nobody. In the second, socket 1
  stopped the session that socket 0 had started and went live as \<open>t\<close> itself: no student
  has joined, and the update of socket 1 is delivered to socket 0.
\<close>

theorem whiteboardUpdate_not_subscriber_set:
  "currentLiveTeacher (after [Connection, StartLive 0 ''t'', JoinTeacherRoom 0 ''t'']) = Some ''t''
   \<and> liveTeachers (after [Connection, StartLive 0 ''t'', JoinTeacherRoom 0 ''t'']) ''t'' = Some {0}
   \<and> snd (whiteboardUpdate 0 \<lparr>teacherId = ''t'', whiteboardData = ''p''\<rparr>
            (after [Connection, StartLive 0 ''t'', JoinTeacherRoom 0 ''t'']))
       = [({}, WhiteboardUpdateMsg \<lparr>teacherId = ''t'', whiteboardData = ''p''\<rparr>)]
   \<and> currentLiveTeacher (after [Connection, Connection, StartLive 0 ''t'', StopLive 1 ''t'',
                                 StartLive 1 ''t'']) = Some ''t''
   \<and> liveTeachers (after [Connection, Connection, StartLive 0 ''t'', StopLive 1 ''t'',
                           StartLive 1 ''t'']) ''t'' = Some {}
   \<and> conns (after [Connection, Connection, StartLive 0 ''t'', StopLive 1 ''t'',
                    StartLive 1 ''t'']) 1
       = Some \<lparr>currentTeacherId = Some ''t'', isStudent = False\<rparr>
   \<and> snd (whiteboardUpdate 1 \<lparr>teacherId = ''t'', whiteboardData = ''p''\<rparr>
            (after [Connection, Connection, StartLive 0 ''t'', StopLive 1 ''t'',
                    StartLive 1 ''t'']))
       = [({0}, WhiteboardUpdateMsg \<lparr>teacherId = ''t'', whiteboardData = ''p''\<rparr>)]"
  by (auto simp: relay_defs)

subsection \<open>The role hint\<close>

lemma isStudent_step:
  assumes "conns s c = Some l" and "isStudent l" and "c < nextConn s" and "e \<noteq> Disconnect c"
  shows "\<exists>l'. conns (fst (step e s)) c = Some l' \<and> isStudent l'"
proof (cases e)
  case Connection
  with assms show ?thesis by (auto simp: connection_def)
next
  case (CheckTeacherStatus c')
  with assms show ?thesis by (auto simp: checkTeacherStatus_def split: option.splits)
next
  case (StartLive c' t)
  with assms show ?thesis
    by (auto simp: startLive_def Let_def set_local_def join_def split: option.splits)
next
  case (StopLive c' t)
  with assms show ?thesis
    by (auto simp: stopLive_def Let_def set_local_def leave_def leave_all_def
             split: option.splits)
next
  case (JoinTeacherRoom c' t)
  with assms show ?thesis
    by (auto simp: joinTeacherRoom_def Let_def set_local_def join_def split: option.splits)
next
  case (LeaveTeacherRoom c' t)
  with assms show ?thesis
    by (auto simp: leaveTeacherRoom_def Let_def set_local_def leave_def split: option.splits)
next
  case (WhiteboardUpdate c' d)
  with assms show ?thesis by (auto simp: whiteboardUpdate_def split: option.splits)
next
  case (Disconnect c')
  with assms show ?thesis
    by (auto simp: disconnect_def Let_def close_def leave_all_def split: option.splits)
qed

lemma isStudent_run:
  assumes "reachable s" and "conns s c = Some l" and "isStudent l"
    and "Disconnect c \<notin> set es"
  shows "\<exists>l'. conns (fst (run es s)) c = Some l' \<and> isStudent l'"
  using assms
proof (induction es arbitrary: s l)
  case Nil
  then show ?case by simp
next
  case (Cons e es)
  from Cons.prems have ne: "e \<noteq> Disconnect c" and rest: "Disconnect c \<notin> set es"
    by auto
  from Cons.prems reachable_conns_bound have "c < nextConn s"
    by blast
  with Cons.prems ne obtain l1 where l1: "conns (fst (step e s)) c = Some l1" "isStudent l1"
    using isStudent_step by blast
  from Cons.prems have "reachable (fst (step e s))"
    by (simp add: reachable_step)
  from Cons.IH [OF this l1 rest] show ?case
    by (simp add: split_beta Let_def)
qed

lemma disconnect_student:
  assumes "conns s c = Some l" and "isStudent l"
  shows "snd (disconnect c s) = []"
    and "currentLiveTeacher (fst (disconnect c s)) = currentLiveTeacher s"
    and "liveTeachers (fst (disconnect c s)) t
           = (if currentTeacherId l = Some t \<and> t \<noteq> []
              then map_option (\<lambda>students. students - {c}) (liveTeachers s t)
              else liveTeachers s t)"
  using assms
  by (auto simp: disconnect_def Let_def close_def split: option.splits)

text \<open>
  In the closure of a new connection \<^verbatim>\<open>isStudent\<close> is false. A \<^verbatim>\<open>joinTeacherRoom(t)\<close> that
  finds an entry for \<open>t\<close> sets it, and from then on it stays set whatever events follow,
  from this socket or any other, until the socket disconnects. The disconnect of such a
  socket then sends nothing, leaves \<^verbatim>\<open>currentLiveTeacher\<close> as it is and deletes no entry of
  \<^verbatim>\<open>liveTeachers\<close>: all it does to the global variables is to remove the socket from the
  students of its \<^verbatim>\<open>currentTeacherId\<close>, when that is a non-empty string.
\<close>

lemma isStudent_monotone:
  assumes "reachable s" and "conns s c = Some l" and "liveTeachers s t = Some students"
    and "Disconnect c \<notin> set es"
  shows "conns (fst (connection s)) (nextConn s)
           = Some \<lparr>currentTeacherId = None, isStudent = False\<rparr>
         \<and> (\<exists>l'. conns (fst (run es (fst (joinTeacherRoom c t s)))) c = Some l' \<and> isStudent l'
              \<and> snd (disconnect c (fst (run es (fst (joinTeacherRoom c t s))))) = []
              \<and> currentLiveTeacher (fst (disconnect c (fst (run es (fst (joinTeacherRoom c t s))))))
                  = currentLiveTeacher (fst (run es (fst (joinTeacherRoom c t s))))
              \<and> (\<forall>t'. liveTeachers (fst (disconnect c (fst (run es (fst (joinTeacherRoom c t s)))))) t'
                   = (if currentTeacherId l' = Some t' \<and> t' \<noteq> []
                      then map_option (\<lambda>students. students - {c})
                             (liveTeachers (fst (run es (fst (joinTeacherRoom c t s)))) t')
                      else liveTeachers (fst (run es (fst (joinTeacherRoom c t s)))) t')))"
proof -
  let ?j = "fst (joinTeacherRoom c t s)"
  have fresh: "conns (fst (connection s)) (nextConn s)
                 = Some \<lparr>currentTeacherId = None, isStudent = False\<rparr>"
    by (simp add: connection_def)
  have "?j = fst (step (JoinTeacherRoom c t) s)"
    by simp
  with assms(1) have rj: "reachable ?j"
    by (metis reachable_step)
  from assms(2,3) have "conns ?j c = Some \<lparr>currentTeacherId = Some t, isStudent = True\<rparr>"
    by (simp add: joinTeacherRoom_def Let_def set_local_def join_def)
  with rj assms(4) obtain l' where l': "conns (fst (run es ?j)) c = Some l'" "isStudent l'"
    using isStudent_run [of ?j c _ es] by auto
  from disconnect_student [OF l'] l' fresh show ?thesis
    by blast
qed

lemma isStudent_monotone_example:
  "reachable teacher_alone
   \<and> conns teacher_alone 1 = Some \<lparr>currentTeacherId = None, isStudent = False\<rparr>
   \<and> liveTeachers teacher_alone ''t1'' = Some {}
   \<and> Disconnect 1 \<notin> set [StopLive 0 ''t1'', StartLive 1 ''t2'']
   \<and> conns (fst (run [StopLive 0 ''t1'', StartLive 1 ''t2'']
                   (fst (joinTeacherRoom 1 ''t1'' teacher_alone)))) 1
       = Some \<lparr>currentTeacherId = Some ''t2'', isStudent = True\<rparr>
   \<and> currentLiveTeacher (fst (run [StopLive 0 ''t1'', StartLive 1 ''t2'']
                                (fst (joinTeacherRoom 1 ''t1'' teacher_alone)))) = Some ''t2''
   \<and> snd (disconnect 1 (fst (run [StopLive 0 ''t1'', StartLive 1 ''t2'']
                               (fst (joinTeacherRoom 1 ''t1'' teacher_alone))))) = []
   \<and> currentLiveTeacher (fst (disconnect 1 (fst (run [StopLive 0 ''t1'', StartLive 1 ''t2'']
                               (fst (joinTeacherRoom 1 ''t1'' teacher_alone)))))) = Some ''t2''"
proof -
  let ?s' = "fst (run [StopLive 0 ''t1'', StartLive 1 ''t2'']
                   (fst (joinTeacherRoom 1 ''t1'' teacher_alone)))"
  have h1: "reachable teacher_alone"
    unfolding teacher_alone_def by (rule reachable_after)
  have h2: "conns teacher_alone 1 = Some \<lparr>currentTeacherId = None, isStudent = False\<rparr>"
    by (simp add: teacher_alone_def relay_defs)
  have h3: "liveTeachers teacher_alone ''t1'' = Some {}"
    by (simp add: teacher_alone_def relay_defs)
  have h4: "Disconnect 1 \<notin> set [StopLive 0 ''t1'', StartLive 1 ''t2'']"
    by simp
  have e1: "conns ?s' 1 = Some \<lparr>currentTeacherId = Some ''t2'', isStudent = True\<rparr>"
    by (simp add: teacher_alone_def relay_defs)
  have e2: "currentLiveTeacher ?s' = Some ''t2''"
    by (simp add: teacher_alone_def relay_defs)
  from isStudent_monotone [OF h1 h2 h3 h4] have
    "snd (disconnect 1 ?s') = []
     \<and> currentLiveTeacher (fst (disconnect 1 ?s')) = currentLiveTeacher ?s'"
    by blast
  with h1 h2 h3 h4 e1 e2 show ?thesis
    by simp
qed

subsection \<open>A student disconnects\<close>

text \<open>
  C8. Let \<open>b\<close> be a connected socket whose closure has \<^verbatim>\<open>isStudent\<close> set and a non-empty
  \<^verbatim>\<open>currentTeacherId\<close> \<open>t\<close>, and let \<open>students\<close> be the entry of \<open>t\<close>. The disconnect of
  \<open>b\<close> removes \<open>b\<close> from \<open>students\<close>, from every room and from the connected sockets, sends
  nothing and changes nothing else: \<^verbatim>\<open>currentLiveTeacher\<close>, the other students, the other
  entries and the other closures are as before. A \<^verbatim>\<open>whiteboardUpdate\<close> that another
  connected socket \<open>c\<close> sends next is delivered to the members of the room other than \<open>c\<close>
  and \<open>b\<close>; these are the remaining students when the teacher went live on \<open>c\<close> in a
  state that is idle for the teacher and \<open>c\<close>, and only events that keep the class have
  followed.
\<close>

theorem disconnect_subscriber:
  assumes "conns s b = Some l" and "currentTeacherId l = Some t" and "t \<noteq> []"
    and "isStudent l" and "liveTeachers s t = Some students"
  shows "disconnect b s =
           (s\<lparr>liveTeachers := (liveTeachers s)(t \<mapsto> students - {b}),
              rooms := (\<lambda>r. rooms s r - {b}),
              conns := (conns s)(b := None)\<rparr>, [])
         \<and> currentLiveTeacher (fst (disconnect b s)) = currentLiveTeacher s
         \<and> (\<forall>c lc d. conns s c = Some lc \<and> c \<noteq> b \<longrightarrow>
               whiteboardUpdate c d (fst (disconnect b s))
                 = (fst (disconnect b s),
                    [(rooms s (room (teacherId d)) - {c} - {b}, WhiteboardUpdateMsg d)])
               \<and> (\<forall>s0 es. teacherId d = t \<and> reachable s0 \<and> idle c t s0 \<and> conns s0 c \<noteq> None
                      \<and> (\<forall>e\<in>set es. keeps_class c t e)
                      \<and> s = fst (run es (fst (startLive c t s0)))
                    \<longrightarrow> whiteboardUpdate c d (fst (disconnect b s))
                          = (fst (disconnect b s), [(students - {b}, WhiteboardUpdateMsg d)])))"
proof -
  have eq: "disconnect b s =
           (s\<lparr>liveTeachers := (liveTeachers s)(t \<mapsto> students - {b}),
              rooms := (\<lambda>r. rooms s r - {b}),
              conns := (conns s)(b := None)\<rparr>, [])"
    using assms by (simp add: disconnect_def Let_def close_def)
  have upd: "whiteboardUpdate c d (fst (disconnect b s))
               = (fst (disconnect b s),
                  [(rooms s (room (teacherId d)) - {c} - {b}, WhiteboardUpdateMsg d)])"
    if "conns s c = Some lc" and "c \<noteq> b" for c lc d
    using that unfolding eq by (auto simp: whiteboardUpdate_def)
  have cls: "whiteboardUpdate c d (fst (disconnect b s))
               = (fst (disconnect b s), [(students - {b}, WhiteboardUpdateMsg d)])"
    if "conns s c = Some lc" and "c \<noteq> b" and "teacherId d = t" and "reachable s0"
      and "idle c t s0" and "conns s0 c \<noteq> None" and "\<forall>e\<in>set es. keeps_class c t e"
      and "s = fst (run es (fst (startLive c t s0)))" for c lc d s0 es
  proof -
    from that(4-8) assms(3) have "class_inv c t s"
      by (simp add: class_scope)
    with assms(5) have "rooms s (room t) - {c} = students"
      unfolding class_inv_def by auto
    with upd [OF that(1,2), of d] that(3) show ?thesis
      by simp
  qed
  have cur: "currentLiveTeacher (fst (disconnect b s)) = currentLiveTeacher s"
    unfolding eq by simp
  from eq cur upd cls show ?thesis
    by blast
qed

theorem disconnect_subscriber_witness:
  "conns second_class 1 = Some \<lparr>currentTeacherId = Some ''t1'', isStudent = True\<rparr>
   \<and> currentTeacherId \<lparr>currentTeacherId = Some ''t1'', isStudent = True\<rparr> = Some ''t1''
   \<and> ''t1'' \<noteq> []
   \<and> isStudent \<lparr>currentTeacherId = Some ''t1'', isStudent = True\<rparr>
   \<and> liveTeachers second_class ''t1'' = Some {1, 2}
   \<and> conns second_class 0 = Some \<lparr>currentTeacherId = Some ''t1'', isStudent = False\<rparr>
   \<and> reachable recess \<and> idle 0 ''t1'' recess \<and> conns recess 0 \<noteq> None
   \<and> keeps_class 0 ''t1'' (JoinTeacherRoom 1 ''t1'') \<and> keeps_class 0 ''t1'' (JoinTeacherRoom 2 ''t1'')
   \<and> second_class
       = fst (run [JoinTeacherRoom 1 ''t1'', JoinTeacherRoom 2 ''t1''] (fst (startLive 0 ''t1'' recess)))
   \<and> snd (disconnect 1 second_class) = []
   \<and> liveTeachers (fst (disconnect 1 second_class)) ''t1'' = Some {2}
   \<and> currentLiveTeacher (fst (disconnect 1 second_class)) = Some ''t1''
   \<and> snd (whiteboardUpdate 0 \<lparr>teacherId = ''t1'', whiteboardData = ''[]''\<rparr>
            (fst (disconnect 1 second_class)))
       = [({2}, WhiteboardUpdateMsg \<lparr>teacherId = ''t1'', whiteboardData = ''[]''\<rparr>)]"
proof -
  let ?l = "\<lparr>currentTeacherId = Some ''t1'', isStudent = True\<rparr>"
  let ?d = "\<lparr>teacherId = ''t1'', whiteboardData = ''[]''\<rparr>"
  let ?es = "[JoinTeacherRoom 1 ''t1'', JoinTeacherRoom 2 ''t1'']"
  have h1: "conns second_class 1 = Some ?l"
    by (simp add: second_class_def recess_def relay_defs)
  have h2: "currentTeacherId ?l = Some ''t1''" and h3: "''t1'' \<noteq> []" and h4: "isStudent ?l"
    by simp_all
  have h5: "liveTeachers second_class ''t1'' = Some {1, 2}"
    by (auto simp: second_class_def recess_def relay_defs)
  have h6: "conns second_class 0 = Some \<lparr>currentTeacherId = Some ''t1'', isStudent = False\<rparr>"
    by (simp add: second_class_def recess_def relay_defs)
  have h7: "currentLiveTeacher second_class = Some ''t1''"
    by (simp add: second_class_def recess_def relay_defs)
  have r: "reachable recess"
    unfolding recess_def by (rule reachable_after)
  have i: "idle 0 ''t1'' recess"
    by (auto simp: idle_def recess_def relay_defs split: if_splits)
  have c: "conns recess 0 \<noteq> None"
    by (simp add: recess_def relay_defs)
  have k: "\<forall>e\<in>set ?es. keeps_class 0 ''t1'' e"
    by simp
  have e: "second_class = fst (run ?es (fst (startLive 0 ''t1'' recess)))"
    by (rule second_class_def)
  have sel: "teacherId ?d = ''t1''" and ne: "(0::nat) \<noteq> 1"
    by simp_all
  note w = disconnect_subscriber [OF h1 h2 h3 h4 h5]
  from w have out: "snd (disconnect 1 second_class) = []"
    and lt: "liveTeachers (fst (disconnect 1 second_class)) ''t1'' = Some ({1, 2} - {1})"
    and cur: "currentLiveTeacher (fst (disconnect 1 second_class)) = currentLiveTeacher second_class"
    by simp_all
  from w h6 ne sel r i c k e
  have "whiteboardUpdate 0 ?d (fst (disconnect 1 second_class))
          = (fst (disconnect 1 second_class), [({1, 2} - {1}, WhiteboardUpdateMsg ?d)])"
    by blast
  moreover have "{1, 2} - {1} = {2::nat}"
    by auto
  ultimately have "snd (whiteboardUpdate 0 ?d (fst (disconnect 1 second_class)))
                     = [({2}, WhiteboardUpdateMsg ?d)]"
    and "liveTeachers (fst (disconnect 1 second_class)) ''t1'' = Some {2}"
    using lt by simp_all
  moreover have "keeps_class 0 ''t1'' (JoinTeacherRoom 1 ''t1'')"
    and "keeps_class 0 ''t1'' (JoinTeacherRoom 2 ''t1'')"
    by simp_all
  moreover from cur h7 have "currentLiveTeacher (fst (disconnect 1 second_class)) = Some ''t1''"
    by simp
  ultimately show ?thesis
    using h1 h2 h3 h4 h5 h6 r i c e out by blast
qed

text \<open>
  C8 as the specification states it fails in two reachable states, in its last part. In
  the first, socket 0 went live as \<open>t\<close> and joined its own room, and socket 1 joined and
  disconnects: socket 0 is the one remaining student, and its update reaches nobody. In
  the second, socket 1 stopped the session of socket 0 and went live as \<open>t\<close> itself, and
  socket 2 joined and disconnects: no student remains, and the update of socket 1
  reaches socket 0.
\<close>

theorem disconnect_subscriber_not_remaining_set:
  "liveTeachers (after [Connection, Connection, StartLive 0 ''t'', JoinTeacherRoom 0 ''t'',
                         JoinTeacherRoom 1 ''t'']) ''t'' = Some {0, 1}
   \<and> liveTeachers (after [Connection, Connection, StartLive 0 ''t'', JoinTeacherRoom 0 ''t'',
                           JoinTeacherRoom 1 ''t'', Disconnect 1]) ''t'' = Some {0}
   \<and> snd (whiteboardUpdate 0 \<lparr>teacherId = ''t'', whiteboardData = ''p''\<rparr>
            (after [Connection, Connection, StartLive 0 ''t'', JoinTeacherRoom 0 ''t'',
                    JoinTeacherRoom 1 ''t'', Disconnect 1]))
       = [({}, WhiteboardUpdateMsg \<lparr>teacherId = ''t'', whiteboardData = ''p''\<rparr>)]
   \<and> liveTeachers (after [Connection, Connection, Connection, StartLive 0 ''t'', StopLive 1 ''t'',
                           StartLive 1 ''t'', JoinTeacherRoom 2 ''t'']) ''t'' = Some {2}
   \<and> liveTeachers (after [Connection, Connection, Connection, StartLive 0 ''t'', StopLive 1 ''t'',
                           StartLive 1 ''t'', JoinTeacherRoom 2 ''t'', Disconnect 2]) ''t''
       = Some {}
   \<and> snd (whiteboardUpdate 1 \<lparr>teacherId = ''t'', whiteboardData = ''p''\<rparr>
            (after [Connection, Connection, Connection, StartLive 0 ''t'', StopLive 1 ''t'',
                    StartLive 1 ''t'', JoinTeacherRoom 2 ''t'', Disconnect 2]))
       = [({0}, WhiteboardUpdateMsg \<lparr>teacherId = ''t'', whiteboardData = ''p''\<rparr>)]"
  by (auto simp: relay_defs)

subsection \<open>The empty string as teacher id\<close>

text \<open>
  The handlers \<^verbatim>\<open>startLive\<close>, \<^verbatim>\<open>checkTeacherStatus\<close> and \<^verbatim>\<open>disconnect\<close> test
  \<^verbatim>\<open>currentLiveTeacher\<close> or \<^verbatim>\<open>currentTeacherId\<close> for truth, where \<^verbatim>\<open>stopLive\<close>,
  \<^verbatim>\<open>joinTeacherRoom\<close> and \<^verbatim>\<open>leaveTeacherRoom\<close> use \<^verbatim>\<open>liveTeachers.has\<close> and \<^verbatim>\<open>===\<close>. For
  every teacher id but the empty string the two agree.
\<close>

lemma startLive_rejects:
  assumes "conns s c = Some l" and "truthy (currentLiveTeacher s)"
  shows "startLive c t s = (s, [({c}, LiveError live_error_message)])"
  using assms by (simp add: startLive_def)

lemma startLive_run_rejects:
  assumes "truthy (currentLiveTeacher s)" and "\<forall>e\<in>set es. \<exists>c t. e = StartLive c t"
  shows "fst (run es s) = s \<and> (\<forall>(cs, m)\<in>set (snd (run es s)). \<exists>x. m = LiveError x)"
  using assms
proof (induction es)
  case Nil
  then show ?case by simp
next
  case (Cons e es)
  then obtain c t where e: "e = StartLive c t"
    by auto
  from Cons.prems(1) have "step e s = (s, []) \<or> step e s = (s, [({c}, LiveError live_error_message)])"
    unfolding e by (cases "conns s c") (simp_all add: startLive_def)
  with Cons show ?case
    by (auto simp: split_beta Let_def)
qed

text \<open>
  Among \<^verbatim>\<open>startLive\<close> events with non-empty teacher ids, with no other event between
  them, at most one is answered with \<^verbatim>\<open>teacherOnline\<close>; the others get \<^verbatim>\<open>liveError\<close>.
\<close>

lemma startLive_run_at_most_one:
  assumes "\<forall>e\<in>set es. \<exists>c t. e = StartLive c t \<and> t \<noteq> []"
  shows "length (filter (\<lambda>e. \<exists>t. snd e = TeacherOnline t) (snd (run es s))) \<le> 1"
  using assms
proof (induction es arbitrary: s)
  case Nil
  then show ?case by simp
next
  case (Cons e es)
  then obtain c t where e: "e = StartLive c t" and t: "t \<noteq> []"
    by auto
  from Cons.prems have rest: "\<forall>e\<in>set es. \<exists>c t. e = StartLive c t \<and> t \<noteq> []"
    by simp
  then have rest': "\<forall>e\<in>set es. \<exists>c t. e = StartLive c t"
    by blast
  show ?case
  proof (cases "conns s c")
    case None
    then have "step e s = (s, [])"
      by (simp add: e startLive_def)
    with Cons.IH [OF rest, of s] show ?thesis
      by (simp add: split_beta Let_def)
  next
    case (Some l)
    show ?thesis
    proof (cases "truthy (currentLiveTeacher s)")
      case True
      from startLive_run_rejects [OF True, of "e # es"] Cons.prems
      have "\<forall>(cs, m)\<in>set (snd (run (e # es) s)). \<exists>x. m = LiveError x"
        by blast
      then have "filter (\<lambda>e. \<exists>t. snd e = TeacherOnline t) (snd (run (e # es) s)) = []"
        by (auto simp: filter_empty_conv)
      then show ?thesis
        by simp
    next
      case False
      let ?s1 = "fst (step e s)"
      from Some False have out: "snd (step e s) = [(dom (conns ?s1), TeacherOnline t)]"
        and cur: "currentLiveTeacher ?s1 = Some t"
        by (simp_all add: e startLive_def Let_def set_local_def join_def)
      from cur t have "truthy (currentLiveTeacher ?s1)"
        by simp
      from startLive_run_rejects [OF this rest']
      have "filter (\<lambda>e. \<exists>t. snd e = TeacherOnline t) (snd (run es ?s1)) = []"
        by (auto simp: filter_empty_conv)
      with out show ?thesis
        by (simp add: split_beta Let_def)
    qed
  qed
qed

text \<open>
  As long as no \<^verbatim>\<open>startLive\<close> names the empty string, at most one teacher is live in every
  state the relay reaches, and \<^verbatim>\<open>currentLiveTeacher\<close> names that teacher.
\<close>

lemma exclusive_step:
  assumes "exclusive s" and "named e"
  shows "exclusive (fst (step e s))"
proof (cases "currentLiveTeacher s")
  case None
  with assms(1) have lt: "liveTeachers s = Map.empty"
    by (simp add: exclusive_def)
  show ?thesis
  proof (cases e)
    case Connection
    with None lt show ?thesis by (simp add: exclusive_def connection_def)
  next
    case (CheckTeacherStatus c)
    with None lt show ?thesis by (simp add: exclusive_def checkTeacherStatus_def split: option.splits)
  next
    case (StartLive c t)
    with None lt assms(2) show ?thesis
      by (auto simp: exclusive_def startLive_def Let_def set_local_def join_def split: option.splits)
  next
    case (StopLive c t)
    with None lt show ?thesis
      by (simp add: exclusive_def stopLive_def Let_def set_local_def leave_def split: option.splits)
  next
    case (JoinTeacherRoom c t)
    with None lt show ?thesis
      by (simp add: exclusive_def joinTeacherRoom_def split: option.splits)
  next
    case (LeaveTeacherRoom c t)
    with None lt show ?thesis
      by (simp add: exclusive_def leaveTeacherRoom_def Let_def set_local_def leave_def split: option.splits)
  next
    case (WhiteboardUpdate c d)
    with None lt show ?thesis by (simp add: exclusive_def whiteboardUpdate_def split: option.splits)
  next
    case (Disconnect c)
    with None lt show ?thesis
      by (simp add: exclusive_def disconnect_def Let_def close_def split: option.splits)
  qed
next
  case (Some t0)
  with assms(1) obtain students where t0: "t0 \<noteq> []" and lt: "liveTeachers s = [t0 \<mapsto> students]"
    by (auto simp: exclusive_def)
  show ?thesis
  proof (cases e)
    case Connection
    with Some t0 lt show ?thesis by (auto simp: exclusive_def connection_def)
  next
    case (CheckTeacherStatus c)
    with Some t0 lt show ?thesis by (auto simp: exclusive_def checkTeacherStatus_def split: option.splits)
  next
    case (StartLive c t)
    with Some t0 lt show ?thesis
      by (auto simp: exclusive_def startLive_def split: option.splits)
  next
    case (StopLive c t)
    with Some t0 lt show ?thesis
      by (auto simp: exclusive_def stopLive_def Let_def set_local_def leave_def leave_all_def
               split: option.splits)
  next
    case (JoinTeacherRoom c t)
    with Some t0 lt show ?thesis
      by (auto simp: exclusive_def joinTeacherRoom_def Let_def set_local_def join_def
               split: option.splits)
  next
    case (LeaveTeacherRoom c t)
    with Some t0 lt show ?thesis
      by (auto simp: exclusive_def leaveTeacherRoom_def Let_def set_local_def leave_def
               split: option.splits)
  next
    case (WhiteboardUpdate c d)
    with Some t0 lt show ?thesis by (auto simp: exclusive_def whiteboardUpdate_def split: option.splits)
  next
    case (Disconnect c)
    with Some t0 lt show ?thesis
      by (auto simp: exclusive_def disconnect_def Let_def close_def leave_all_def
               split: option.splits)
  qed
qed


lemma exclusive_run:
  assumes "exclusive s" and "\<forall>e\<in>set es. named e"
  shows "exclusive (fst (run es s))"
  using assms
proof (induction es arbitrary: s)
  case Nil
  then show ?case by simp
next
  case (Cons e es)
  from Cons.prems have "exclusive (fst (step e s))"
    by (simp add: exclusive_step)
  with Cons show ?case
    by (simp add: split_beta Let_def)
qed

lemma exclusive_after:
  assumes "\<forall>e\<in>set es. named e"
  shows "exclusive (after es)"
proof -
  have "exclusive init"
    by (simp add: exclusive_def init_def)
  with assms show ?thesis
    unfolding after_def by (simp add: exclusive_run)
qed

lemma exclusive_one_session:
  assumes "exclusive s" and "liveTeachers s t \<noteq> None"
  shows "currentLiveTeacher s = Some t \<and> t \<noteq> [] \<and> dom (liveTeachers s) = {t}"
proof (cases "currentLiveTeacher s")
  case None
  with assms show ?thesis by (simp add: exclusive_def)
next
  case (Some t0)
  with assms(1) obtain students where "t0 \<noteq> []" and "liveTeachers s = [t0 \<mapsto> students]"
    by (auto simp: exclusive_def)
  with assms(2) Some show ?thesis
    by (auto split: if_splits)
qed

text \<open>
  C1. The specification has every \<^verbatim>\<open>startLive\<close> that arrives while \<^verbatim>\<open>currentLiveTeacher\<close>
  is set answered with \<^verbatim>\<open>liveError\<close> to the sender only, with no change of state, so that
  of several \<^verbatim>\<open>startLive\<close> with distinct ids at most one is accepted. The handler does so
  for every non-empty id (\<open>startLive_rejects\<close>, \<open>startLive_run_at_most_one\<close>,
  \<open>exclusive_after\<close>), and not
  for the empty string: after \<^verbatim>\<open>startLive('')\<close> on socket 0, \<^verbatim>\<open>currentLiveTeacher\<close> is the
  empty string and \<^verbatim>\<open>liveTeachers\<close> has an entry for it, and a \<^verbatim>\<open>startLive('t2')\<close> on socket
  1 is accepted: \<^verbatim>\<open>teacherOnline\<close> is sent to both sockets a second time, no \<^verbatim>\<open>liveError\<close>
  is sent, and \<^verbatim>\<open>liveTeachers\<close> holds an entry for each of the two teachers.
\<close>

theorem startLive_empty_id_admits_second:
  "conns empty_id_live 1 = Some \<lparr>currentTeacherId = None, isStudent = False\<rparr>
   \<and> currentLiveTeacher empty_id_live = Some ''''
   \<and> liveTeachers empty_id_live '''' = Some {}
   \<and> snd (run [Connection, Connection, StartLive 0 '''', StartLive 1 ''t2''] init)
       = [({0, 1}, TeacherOnline ''''), ({0, 1}, TeacherOnline ''t2'')]
   \<and> snd (startLive 1 ''t2'' empty_id_live) = [({0, 1}, TeacherOnline ''t2'')]
   \<and> liveTeachers (fst (startLive 1 ''t2'' empty_id_live)) '''' = Some {}
   \<and> liveTeachers (fst (startLive 1 ''t2'' empty_id_live)) ''t2'' = Some {}
   \<and> currentLiveTeacher (fst (startLive 1 ''t2'' empty_id_live)) = Some ''t2''"
  by (auto simp: empty_id_live_def relay_defs)

lemma checkTeacherStatus_after_startLive:
  assumes "conns s c = Some l" and "currentLiveTeacher s = None" and "t \<noteq> []"
    and "conns s c' = Some l'"
  shows "checkTeacherStatus c' (fst (startLive c t s))
           = (fst (startLive c t s), [({c'}, TeacherOnline t)])"
  using assms
  by (auto simp: checkTeacherStatus_def startLive_def Let_def set_local_def join_def)

lemma checkTeacherStatus_no_effect: "fst (checkTeacherStatus c s) = s"
  by (simp add: checkTeacherStatus_def split: option.splits)

text \<open>
  C7. The specification has a \<^verbatim>\<open>checkTeacherStatus\<close> after an accepted \<^verbatim>\<open>startLive(t)\<close>
  answered with \<^verbatim>\<open>teacherOnline\<close> naming \<open>t\<close>, to the sender only and with no change of
  state. The handler never changes the state (\<open>checkTeacherStatus_no_effect\<close>) and
  answers so for every non-empty id (\<open>checkTeacherStatus_after_startLive\<close>), and not for
  the empty string: after the accepted \<^verbatim>\<open>startLive('')\<close> on socket 0, which is announced
  with \<^verbatim>\<open>teacherOnline\<close> to both sockets, a \<^verbatim>\<open>checkTeacherStatus\<close> on socket 1 gets no
  answer.
\<close>

theorem checkTeacherStatus_empty_id_no_reply:
  "snd (startLive 0 '''' (after [Connection, Connection])) = [({0, 1}, TeacherOnline '''')]
   \<and> empty_id_live = fst (startLive 0 '''' (after [Connection, Connection]))
   \<and> conns empty_id_live 1 = Some \<lparr>currentTeacherId = None, isStudent = False\<rparr>
   \<and> currentLiveTeacher empty_id_live = Some ''''
   \<and> checkTeacherStatus 1 empty_id_live = (empty_id_live, [])"
  by (auto simp: empty_id_live_def relay_defs)

text \<open>
  Every reachable state has an entry in \<^verbatim>\<open>liveTeachers\<close> for the teacher that
  \<^verbatim>\<open>currentLiveTeacher\<close> names.
\<close>

lemma step_live_has_session:
  assumes "\<forall>t. currentLiveTeacher s = Some t \<longrightarrow> liveTeachers s t \<noteq> None"
  shows "\<forall>t. currentLiveTeacher (fst (step e s)) = Some t
              \<longrightarrow> liveTeachers (fst (step e s)) t \<noteq> None"
proof (cases e)
  case Connection
  with assms show ?thesis by (auto simp: connection_def)
next
  case (CheckTeacherStatus c)
  with assms show ?thesis by (auto simp: checkTeacherStatus_def split: option.splits)
next
  case (StartLive c t)
  with assms show ?thesis
    by (auto simp: startLive_def Let_def set_local_def join_def split: option.splits if_splits)
next
  case (StopLive c t)
  with assms show ?thesis
    by (auto simp: stopLive_def Let_def set_local_def leave_def leave_all_def
             split: option.splits if_splits)
next
  case (JoinTeacherRoom c t)
  with assms show ?thesis
    by (auto simp: joinTeacherRoom_def Let_def set_local_def join_def
             split: option.splits if_splits)
next
  case (LeaveTeacherRoom c t)
  with assms show ?thesis
    by (auto simp: leaveTeacherRoom_def Let_def set_local_def leave_def
             split: option.splits if_splits)
next
  case (WhiteboardUpdate c d)
  with assms show ?thesis by (auto simp: whiteboardUpdate_def split: option.splits)
next
  case (Disconnect c)
  with assms show ?thesis
    by (auto simp: disconnect_def Let_def close_def leave_all_def
             split: option.splits if_splits)
qed

lemma reachable_live_has_session:
  "reachable s \<Longrightarrow> currentLiveTeacher s = Some t \<Longrightarrow> liveTeachers s t \<noteq> None"
proof (induction arbitrary: t rule: reachable.induct)
  case reachable_init
  then show ?case by (simp add: init_def)
next
  case (reachable_step s e)
  from reachable_step.IH have "\<forall>t. currentLiveTeacher s = Some t \<longrightarrow> liveTeachers s t \<noteq> None"
    by blast
  from step_live_has_session [OF this, of e] reachable_step.prems show ?case
    by blast
qed

text \<open>
  When the socket of a teacher with a non-empty id disconnects, the state is the one that
  \<^verbatim>\<open>stopLive\<close> on that socket followed by the transport's removal of the socket gives, and
  the same messages are sent, to the sockets that remain.
\<close>

lemma disconnect_teacher_as_stopLive:
  assumes "conns s c = Some l" and "currentTeacherId l = Some t" and "t \<noteq> []"
    and "\<not> isStudent l"
  shows "fst (disconnect c s) = close c (fst (stopLive c t s))"
    and "snd (disconnect c s) = map (\<lambda>(cs, m). (cs - {c}, m)) (snd (stopLive c t s))"
  using assms
  by (auto intro!: relay.equality
           simp: disconnect_def stopLive_def Let_def close_def set_local_def leave_def
                 leave_all_def fun_eq_iff
           split: option.splits)

lemma disconnect_live_teacher:
  assumes "reachable s" and "conns s c = Some l" and "currentTeacherId l = Some t"
    and "t \<noteq> []" and "\<not> isStudent l" and "currentLiveTeacher s = Some t"
  shows "\<exists>students. liveTeachers s t = Some students
           \<and> disconnect c s =
               (s\<lparr>liveTeachers := (liveTeachers s)(t := None),
                  currentLiveTeacher := None,
                  rooms := (\<lambda>r. if r = room t then rooms s r - students - {c}
                                 else rooms s r - {c}),
                  conns := (conns s)(c := None)\<rparr>,
                [(dom (conns s) - {c}, TeacherOffline t)])"
proof -
  from reachable_live_has_session [OF assms(1,6)] obtain students
    where "liveTeachers s t = Some students"
    by blast
  with assms(2-6) show ?thesis
    by (auto intro!: relay.equality
             simp: disconnect_def Let_def close_def leave_all_def fun_eq_iff)
qed

text \<open>
  C2. The specification has the disconnect of the live teacher's socket do what
  \<^verbatim>\<open>stopLive\<close> does. The handler does so for every non-empty id
  (\<open>disconnect_teacher_as_stopLive\<close>, \<open>disconnect_live_teacher\<close>), and not for the empty
  string: after \<^verbatim>\<open>startLive('')\<close> on socket 0, socket 0 is the socket of the live teacher,
  its \<^verbatim>\<open>currentTeacherId\<close> and \<^verbatim>\<open>currentLiveTeacher\<close> are the empty string and \<^verbatim>\<open>isStudent\<close>
  is false. Its disconnect sends nothing and leaves the entry in \<^verbatim>\<open>liveTeachers\<close> and
  \<^verbatim>\<open>currentLiveTeacher\<close> as they are, where \<^verbatim>\<open>stopLive('')\<close> deletes the entry, sets
  \<^verbatim>\<open>currentLiveTeacher\<close> to null and sends \<^verbatim>\<open>teacherOffline\<close> to both sockets.
\<close>

theorem disconnect_empty_id_keeps_session:
  "conns empty_id_live 0 = Some \<lparr>currentTeacherId = Some '''', isStudent = False\<rparr>
   \<and> currentLiveTeacher empty_id_live = Some ''''
   \<and> liveTeachers empty_id_live '''' = Some {}
   \<and> snd (disconnect 0 empty_id_live) = []
   \<and> liveTeachers (fst (disconnect 0 empty_id_live)) '''' = Some {}
   \<and> currentLiveTeacher (fst (disconnect 0 empty_id_live)) = Some ''''
   \<and> snd (stopLive 0 '''' empty_id_live) = [({0, 1}, TeacherOffline '''')]
   \<and> liveTeachers (fst (stopLive 0 '''' empty_id_live)) '''' = None
   \<and> currentLiveTeacher (fst (stopLive 0 '''' empty_id_live)) = None"
  by (auto simp: empty_id_live_def relay_defs)


end
